theory Spec2Isabelle
  imports Complex_Main "HOL-Library.AList"
begin

section \<open>Values, frames and errors\<close>

text \<open>
  A cell of a pandas frame as this program meets it: a Python int, a float, a string, or
  the missing value NaN. The floats of this program are the results of
  \<^verbatim>\<open>random.random()\<close>, which are dyadic rationals, so a float is held by its exact
  rational value.
\<close>

datatype cell = IntV int | FltV rat | StrV string | NaN

text \<open>
  A column label: \<^verbatim>\<open>read_csv(header=None)\<close> labels the columns 0, 1, 2, ...; the
  program then assigns names.
\<close>

datatype label = Pos nat | Name string

text \<open>
  A DataFrame: its row labels (the index) and its columns in order, each a label with the
  column's values. Every column has as many values as the index has labels.
\<close>

record dataframe =
  index :: "nat list"
  columns :: "(label \<times> cell list) list"

datatype error = EmptyDataError | ParserError | ValueError | KeyError | FileNotFoundError

text \<open>What the program prints and shows, in order.\<close>

datatype event =
    PrintGenerating nat
  | PrintSaved nat nat
  | PrintHead "cell list list"
  | PrintSize nat nat
  | PrintCounts "(cell \<times> nat) list"
  | Print string
  | PrintError error
  | BarChart "(cell \<times> nat) list"
  | LineChart "(nat \<times> nat) list"

text \<open>
  The world the program runs in: the source of randomness (an infinite tape of raw
  draws), the contents of \<^verbatim>\<open>kddcup99.csv\<close> when the file exists, and the console
  and figures produced so far (a printed line is kept without its leading line break).
  The file is held as its records, each a list of field
  texts: what the csv writer is given and what the tokenizer hands to the parser.
\<close>

type_synonym rng = "nat \<Rightarrow> nat"

type_synonym csv = "string list list"

record world =
  rng :: rng
  disk :: "csv option"
  out :: "event list"

section \<open>Constants of the script\<close>

definition KDD_COLUMNS :: "string list" where
  "KDD_COLUMNS =
    [''duration'', ''protocol_type'', ''service'', ''flag'', ''src_bytes'', ''dst_bytes'',
     ''land'', ''wrong_fragment'', ''urgent'', ''hot'', ''num_failed_logins'', ''logged_in'',
     ''num_compromised'', ''root_shell'', ''su_attempted'', ''num_root'', ''num_file_creations'',
     ''num_shells'', ''num_access_files'', ''num_outbound_cmds'', ''is_host_login'',
     ''is_guest_login'', ''count'', ''srv_count'', ''serror_rate'', ''srv_serror_rate'',
     ''rerror_rate'', ''srv_rerror_rate'', ''same_srv_rate'', ''diff_srv_rate'',
     ''srv_diff_host_rate'', ''dst_host_count'', ''dst_host_srv_count'',
     ''dst_host_same_srv_rate'', ''dst_host_diff_srv_rate'',
     ''dst_host_same_src_port_rate'', ''dst_host_srv_diff_host_rate'',
     ''dst_host_serror_rate'', ''dst_host_srv_serror_rate'',
     ''dst_host_rerror_rate'', ''dst_host_srv_rerror_rate'', ''attack_type'']"

definition PROTOCOLS :: "string list" where
  "PROTOCOLS = [''tcp'', ''udp'', ''icmp'']"

definition SERVICES :: "string list" where
  "SERVICES = [''http'', ''ftp'', ''smtp'', ''domain_u'']"

definition FLAGS :: "string list" where
  "FLAGS = [''SF'', ''REJ'', ''S0'']"

definition ATTACKS :: "string list" where
  "ATTACKS = [''normal.'', ''smurf.'', ''neptune.'', ''back.'', ''teardrop.'']"

definition NUM_ROWS :: nat where
  "NUM_ROWS = 5000"

section \<open>The random module\<close>

text \<open>
  Each call of the random module consumes one raw draw of the tape. The three calls keep
  the ranges that Python documents: \<^verbatim>\<open>random()\<close> is a multiple of \<open>2\<^sup>-\<^sup>5\<^sup>3\<close> in
  \<open>[0, 1)\<close>, \<^verbatim>\<open>randint(a, b)\<close> lies in \<open>[a, b]\<close>, \<^verbatim>\<open>choice(seq)\<close> is an
  element of \<open>seq\<close>. Every result Python can return is the result for some draw.
\<close>

definition next_raw :: "rng \<Rightarrow> nat \<times> rng" where
  "next_raw g = (g 0, \<lambda>i. g (Suc i))"

definition random_random :: "rng \<Rightarrow> rat \<times> rng" where
  "random_random g = (let (n, g') = next_raw g in (of_nat (n mod 2 ^ 53) / 2 ^ 53, g'))"

definition randint :: "int \<Rightarrow> int \<Rightarrow> rng \<Rightarrow> int \<times> rng" where
  "randint a b g = (let (n, g') = next_raw g in (a + int (n mod nat (b - a + 1)), g'))"

definition choice :: "'a list \<Rightarrow> rng \<Rightarrow> 'a \<times> rng" where
  "choice xs g = (let (n, g') = next_raw g in (xs ! (n mod length xs), g'))"

text \<open>
  The float literal \<^verbatim>\<open>0.3\<close> is the double \<open>5404319552844595 / 2\<^sup>5\<^sup>4\<close>.
\<close>

definition double_0_3 :: rat where
  "double_0_3 = 5404319552844595 / 2 ^ 54"

section \<open>The generator\<close>

definition generate_row :: "rng \<Rightarrow> cell list \<times> rng" where
  "generate_row g0 =
    (let (u, g) = random_random g0;
         is_attack = (u > double_0_3);
         (duration, g) = randint 0 1000 g;
         (protocol_type, g) = choice PROTOCOLS g;
         (service, g) = choice SERVICES g;
         (flag, g) = choice FLAGS g;
         (src_bytes, g) = randint 0 50000 g;
         (dst_bytes, g) = randint 0 50000 g;
         (hot, g) = randint 0 10 g;
         (num_failed_logins, g) = randint 0 5 g;
         (logged_in, g) = randint 0 1 g;
         (num_compromised, g) = randint 0 10 g;
         (root_shell, g) = randint 0 1 g;
         (su_attempted, g) = randint 0 1 g;
         (num_root, g) = randint 0 10 g;
         (num_file_creations, g) = randint 0 5 g;
         (num_shells, g) = randint 0 2 g;
         (num_access_files, g) = randint 0 2 g;
         (is_guest_login, g) = randint 0 1 g;
         (count, g) = randint 1 100 g;
         (srv_count, g) = randint 1 100 g;
         (serror_rate, g) = random_random g;
         (srv_serror_rate, g) = random_random g;
         (rerror_rate, g) = random_random g;
         (srv_rerror_rate, g) = random_random g;
         (same_srv_rate, g) = random_random g;
         (diff_srv_rate, g) = random_random g;
         (srv_diff_host_rate, g) = random_random g;
         (dst_host_count, g) = randint 1 255 g;
         (dst_host_srv_count, g) = randint 1 255 g;
         (dst_host_same_srv_rate, g) = random_random g;
         (dst_host_diff_srv_rate, g) = random_random g;
         (dst_host_same_src_port_rate, g) = random_random g;
         (dst_host_srv_diff_host_rate, g) = random_random g;
         (dst_host_serror_rate, g) = random_random g;
         (dst_host_srv_serror_rate, g) = random_random g;
         (dst_host_rerror_rate, g) = random_random g;
         (dst_host_srv_rerror_rate, g) = random_random g;
         (attack_type, g) = (if is_attack then choice (tl ATTACKS) g else (hd ATTACKS, g))
     in ([IntV duration, StrV protocol_type, StrV service, StrV flag,
          IntV src_bytes, IntV dst_bytes,
          IntV 0, IntV 0, IntV 0,
          IntV hot, IntV num_failed_logins, IntV logged_in, IntV num_compromised,
          IntV root_shell, IntV su_attempted, IntV num_root, IntV num_file_creations,
          IntV num_shells, IntV num_access_files,
          IntV 0, IntV 0,
          IntV is_guest_login, IntV count, IntV srv_count,
          FltV serror_rate, FltV srv_serror_rate, FltV rerror_rate, FltV srv_rerror_rate,
          FltV same_srv_rate, FltV diff_srv_rate, FltV srv_diff_host_rate,
          IntV dst_host_count, IntV dst_host_srv_count,
          FltV dst_host_same_srv_rate, FltV dst_host_diff_srv_rate,
          FltV dst_host_same_src_port_rate, FltV dst_host_srv_diff_host_rate,
          FltV dst_host_serror_rate, FltV dst_host_srv_serror_rate,
          FltV dst_host_rerror_rate, FltV dst_host_srv_rerror_rate,
          StrV attack_type], g))"

text \<open>The loop \<^verbatim>\<open>for i in range(num_rows)\<close>: one row per iteration, appended in order.\<close>

fun generate_rows :: "nat \<Rightarrow> rng \<Rightarrow> cell list list \<times> rng" where
  "generate_rows 0 g = ([], g)"
| "generate_rows (Suc n) g =
    (let (row, g') = generate_row g; (rest, g'') = generate_rows n g' in (row # rest, g''))"

section \<open>Field texts\<close>

text \<open>
  Numbers are written to the file and read back as decimal text. Integers are written as
  Python writes them. The spelling of a float is not part of any property here, so a float
  is written by its decimal expansion to 53 places, which is exact for every multiple of
  \<open>2\<^sup>-\<^sup>5\<^sup>3\<close>; the reader takes a decimal literal at its exact value.
\<close>

definition digit_char :: "nat \<Rightarrow> char" where
  "digit_char d = ''0123456789'' ! d"

definition is_digit :: "char \<Rightarrow> bool" where
  "is_digit c = (c \<in> set ''0123456789'')"

definition digit_val :: "char \<Rightarrow> nat" where
  "digit_val c = of_char c - 48"

function render_nat :: "nat \<Rightarrow> string" where
  "render_nat n =
    (if n < 10 then [digit_char n] else render_nat (n div 10) @ [digit_char (n mod 10)])"
  by pat_completeness auto
termination
  by (relation "measure id") auto

declare render_nat.simps [simp del]

definition nat_of_digits :: "string \<Rightarrow> nat" where
  "nat_of_digits s = foldl (\<lambda>a c. 10 * a + digit_val c) 0 s"

definition render_int :: "int \<Rightarrow> string" where
  "render_int i = (if i < 0 then CHR ''-'' # render_nat (nat (- i)) else render_nat (nat i))"

primrec frac_digits :: "nat \<Rightarrow> nat \<Rightarrow> string" where
  "frac_digits 0 m = []"
| "frac_digits (Suc k) m = frac_digits k (m div 10) @ [digit_char (m mod 10)]"

definition render_float :: "rat \<Rightarrow> string" where
  "render_float q =
    (let a = \<bar>q\<bar>;
         whole = nat \<lfloor>a\<rfloor>;
         frac = nat \<lfloor>(a - of_nat whole) * 10 ^ 53\<rfloor>
     in (if q < 0 then [CHR ''-''] else []) @ render_nat whole @ [CHR ''.''] @ frac_digits 53 frac)"

definition render_cell :: "cell \<Rightarrow> string" where
  "render_cell c =
    (case c of IntV i \<Rightarrow> render_int i | FltV q \<Rightarrow> render_float q | StrV s \<Rightarrow> s | NaN \<Rightarrow> [])"

definition negative :: "string \<Rightarrow> bool" where
  "negative s = (case s of [] \<Rightarrow> False | c # r \<Rightarrow> c = CHR ''-'')"

definition unsigned :: "string \<Rightarrow> string" where
  "unsigned s = (if negative s then tl s else s)"

definition is_nat_literal :: "string \<Rightarrow> bool" where
  "is_nat_literal s = (s \<noteq> [] \<and> list_all is_digit s)"

definition is_int_literal :: "string \<Rightarrow> bool" where
  "is_int_literal s = is_nat_literal (unsigned s)"

definition int_of_literal :: "string \<Rightarrow> int" where
  "int_of_literal s =
    (if negative s then - int (nat_of_digits (unsigned s)) else int (nat_of_digits (unsigned s)))"

definition whole_part :: "string \<Rightarrow> string" where
  "whole_part s = takeWhile (\<lambda>c. c \<noteq> CHR ''.'') (unsigned s)"

definition point_part :: "string \<Rightarrow> string" where
  "point_part s = dropWhile (\<lambda>c. c \<noteq> CHR ''.'') (unsigned s)"

definition is_float_literal :: "string \<Rightarrow> bool" where
  "is_float_literal s =
    (is_nat_literal (whole_part s) \<and> point_part s \<noteq> [] \<and> is_nat_literal (tl (point_part s)))"

definition rat_of_literal :: "string \<Rightarrow> rat" where
  "rat_of_literal s =
    (let fr = tl (point_part s);
         v = of_nat (nat_of_digits (whole_part s)) + of_nat (nat_of_digits fr) / 10 ^ length fr
     in if negative s then - v else v)"

text \<open>The texts that \<^verbatim>\<open>read_csv\<close> takes for a missing value by default.\<close>

definition NA_VALUES :: "string list" where
  "NA_VALUES =
    [[], ''#N/A'', ''#N/A N/A'', ''#NA'', ''-1.#IND'', ''-1.#QNAN'', ''-NaN'', ''-nan'',
     ''1.#IND'', ''1.#QNAN'', ''<NA>'', ''N/A'', ''NA'', ''NULL'', ''NaN'', ''None'',
     ''n/a'', ''nan'', ''null'']"

definition is_na :: "string \<Rightarrow> bool" where
  "is_na s = (s \<in> set NA_VALUES)"

text \<open>
  The type of a column is inferred from all of its fields: integers when every field is
  an integer literal; floats, with NaN for the missing, when every field is a number or
  missing; otherwise the texts themselves, with NaN for the missing.
\<close>

definition infer_column :: "string list \<Rightarrow> cell list" where
  "infer_column toks =
    (if list_all is_int_literal toks then map (\<lambda>t. IntV (int_of_literal t)) toks
     else if list_all (\<lambda>t. is_na t \<or> is_int_literal t \<or> is_float_literal t) toks
       then map (\<lambda>t. if is_na t then NaN else FltV (rat_of_literal t)) toks
     else map (\<lambda>t. if is_na t then NaN else StrV t) toks)"

section \<open>The pandas operations the script uses\<close>

text \<open>
  \<^verbatim>\<open>pd.DataFrame(data, columns=names)\<close> from a list of rows: the rows must all have
  as many values as there are names; the index is \<open>0, 1, ...\<close>.
\<close>

definition DataFrame :: "cell list list \<Rightarrow> string list \<Rightarrow> error + dataframe" where
  "DataFrame rows names =
    (if list_all (\<lambda>r. length r = length names) rows
     then Inr \<lparr>index = [0..<length rows],
               columns = map (\<lambda>j. (Name (names ! j), map (\<lambda>r. r ! j) rows)) [0..<length names]\<rparr>
     else Inl ValueError)"

definition rows_of :: "dataframe \<Rightarrow> cell list list" where
  "rows_of df = map (\<lambda>i. map (\<lambda>c. snd c ! i) (columns df)) [0..<length (index df)]"

text \<open>\<^verbatim>\<open>df.to_csv(path, index=False, header=False)\<close>: one record per row, nothing else.\<close>

definition to_csv :: "dataframe \<Rightarrow> csv" where
  "to_csv df = map (map render_cell) (rows_of df)"

text \<open>
  \<^verbatim>\<open>pd.read_csv(path, header=None)\<close>. Blank lines (records with no field) are skipped.
  With no record left there are no columns to parse: EmptyDataError. The first record
  gives the number of columns. A later record with more fields is a tokenizing error
  (ParserError); a record with fewer fields is filled up with missing values.
\<close>

definition records :: "csv \<Rightarrow> csv" where
  "records file = filter (\<lambda>r. r \<noteq> []) file"

definition field :: "nat \<Rightarrow> string list \<Rightarrow> string" where
  "field j r = (if j < length r then r ! j else [])"

definition parsed_column :: "csv \<Rightarrow> nat \<Rightarrow> cell list" where
  "parsed_column file j = infer_column (map (field j) (records file))"

definition read_csv :: "csv \<Rightarrow> error + dataframe" where
  "read_csv file =
    (case records file of
       [] \<Rightarrow> Inl EmptyDataError
     | first # _ \<Rightarrow>
         if list_ex (\<lambda>r. length r > length first) (records file) then Inl ParserError
         else Inr \<lparr>index = [0..<length (records file)],
                   columns = map (\<lambda>j. (Pos j, parsed_column file j)) [0..<length first]\<rparr>)"

text \<open>\<^verbatim>\<open>df.columns = names\<close>: a ValueError unless there is one name per column.\<close>

definition set_columns :: "string list \<Rightarrow> dataframe \<Rightarrow> error + dataframe" where
  "set_columns names df =
    (if length names \<noteq> length (columns df) then Inl ValueError
     else Inr (df\<lparr>columns := map2 (\<lambda>n c. (Name n, snd c)) names (columns df)\<rparr>))"

text \<open>\<^verbatim>\<open>df[name]\<close>: the column of that name; \<open>None\<close> stands for the KeyError.\<close>

definition getitem :: "dataframe \<Rightarrow> string \<Rightarrow> cell list option" where
  "getitem df name = map_of (columns df) (Name name)"

text \<open>\<^verbatim>\<open>df[name] = values\<close>: replaces the column of that name, or appends a new last column.\<close>

definition setitem :: "dataframe \<Rightarrow> string \<Rightarrow> cell list \<Rightarrow> dataframe" where
  "setitem df name vals = df\<lparr>columns := AList.update (Name name) vals (columns df)\<rparr>"

text \<open>\<^verbatim>\<open>df[mask]\<close>: the rows where the mask is true, under their own index labels.\<close>

definition select_rows :: "bool list \<Rightarrow> dataframe \<Rightarrow> dataframe" where
  "select_rows keep df =
    \<lparr>index = map fst (filter snd (zip (index df) keep)),
     columns = map (\<lambda>c. (fst c, map fst (filter snd (zip (snd c) keep)))) (columns df)\<rparr>"

text \<open>
  \<^verbatim>\<open>Series.value_counts()\<close>: missing values are dropped; the distinct values are
  collected in the order of their first occurrence with their counts, then sorted by
  descending count, values of equal count staying in that order.
\<close>

fun first_seen :: "'a list \<Rightarrow> 'a list" where
  "first_seen [] = []"
| "first_seen (x # xs) = x # filter (\<lambda>y. y \<noteq> x) (first_seen xs)"

definition value_counts :: "cell list \<Rightarrow> (cell \<times> nat) list" where
  "value_counts xs =
    (let ys = filter (\<lambda>c. c \<noteq> NaN) xs
     in sort_key (\<lambda>p. - int (snd p)) (map (\<lambda>v. (v, count_list ys v)) (first_seen ys)))"

text \<open>
  \<^verbatim>\<open>frame.groupby(keys).size()\<close> with a Series of keys: each row of the frame takes
  the key stored under its index label (a row with no key is dropped); the result has one
  entry per key that occurs, in ascending order of the keys, with the number of rows.
\<close>

definition groupby_size :: "nat list \<Rightarrow> (nat \<times> nat) list \<Rightarrow> (nat \<times> nat) list" where
  "groupby_size labels grouper =
    (let keys = List.map_filter (map_of grouper) labels
     in map (\<lambda>k. (k, count_list keys k)) (sort (remdups keys)))"

section \<open>Generation and loading\<close>

definition generate_synthetic_data :: "nat \<Rightarrow> world \<Rightarrow> (error + dataframe) \<times> world" where
  "generate_synthetic_data num_rows w =
    (let w1 = w\<lparr>out := out w @ [PrintGenerating num_rows]\<rparr>;
         (rows, g) = generate_rows num_rows (rng w1);
         w2 = w1\<lparr>rng := g\<rparr>
     in case DataFrame rows KDD_COLUMNS of
          Inl e \<Rightarrow> (Inl e, w2)
        | Inr df \<Rightarrow>
            (Inr df, w2\<lparr>disk := Some (to_csv df),
                        out := out w2 @ [PrintSaved (length (index df)) (length (columns df))]\<rparr>))"

text \<open>The derived column: the lambda of \<^verbatim>\<open>load_and_prepare_data\<close>.\<close>

definition category :: "cell \<Rightarrow> cell" where
  "category x = (if x = StrV ''normal.'' then StrV ''Normal'' else StrV ''Attack'')"

definition load_and_prepare_data :: "world \<Rightarrow> (error + dataframe) \<times> world" where
  "load_and_prepare_data w =
    (case disk w of
       None \<Rightarrow> (Inl FileNotFoundError, w)
     | Some file \<Rightarrow>
        (case read_csv file of
           Inl e \<Rightarrow> (Inl e, w)
         | Inr df0 \<Rightarrow>
            (case set_columns KDD_COLUMNS df0 of
               Inl e \<Rightarrow> (Inl e, w)
             | Inr df \<Rightarrow>
                (let w1 = w\<lparr>out := out w @
                       [Print ''Initial Data Inspection (Head):'', PrintHead (take 5 (rows_of df)),
                        PrintSize (length (index df)) (length (columns df))]\<rparr>
                 in case getitem df ''attack_type'' of
                      None \<Rightarrow> (Inl KeyError, w1)
                    | Some labels \<Rightarrow>
                        (Inr (setitem df ''attack_category'' (map category labels)),
                         w1\<lparr>out := out w1 @
                           [Print ''Attack Category Distribution:'',
                            PrintCounts (value_counts (map category labels))]\<rparr>)))))"

section \<open>The two views\<close>

definition top_attacks :: "dataframe \<Rightarrow> (cell \<times> nat) list option" where
  "top_attacks df =
    (case getitem df ''attack_category'' of
       None \<Rightarrow> None
     | Some cats \<Rightarrow>
        (case getitem (select_rows (map (\<lambda>c. c = StrV ''Attack'') cats) df) ''attack_type'' of
           None \<Rightarrow> None
         | Some labels \<Rightarrow> Some (take 10 (value_counts labels))))"

definition plot_top_attacks :: "dataframe \<Rightarrow> world \<Rightarrow> error option \<times> dataframe \<times> world" where
  "plot_top_attacks df w =
    (case top_attacks df of
       None \<Rightarrow> (Some KeyError, df, w)
     | Some counts \<Rightarrow>
        if counts = [] then (None, df, w\<lparr>out := out w @ [Print ''No attacks found to plot top 10.'']\<rparr>)
        else (None, df, w\<lparr>out := out w @ [BarChart counts]\<rparr>))"

definition interval_size :: nat where
  "interval_size = 1000"

text \<open>
  The aggregate of the trend view, on the frame that already has its \<^verbatim>\<open>time\<close>
  column: the keys \<^verbatim>\<open>df['time'] // interval_size\<close> are those of the positions
  \<open>0, 1, ...\<close> just stored, under the frame's index labels.
\<close>

definition attack_trend :: "dataframe \<Rightarrow> (nat \<times> nat) list option" where
  "attack_trend df =
    (case getitem df ''attack_category'' of
       None \<Rightarrow> None
     | Some cats \<Rightarrow>
        (let sel = select_rows (map (\<lambda>c. c = StrV ''Attack'') cats) df;
             grouper = zip (index df) (map (\<lambda>t. t div interval_size) [0..<length (index df)])
         in Some (groupby_size (index sel) grouper)))"

definition plot_attack_trend :: "dataframe \<Rightarrow> world \<Rightarrow> error option \<times> dataframe \<times> world" where
  "plot_attack_trend df w =
    (let df1 = setitem df ''time'' (map (\<lambda>t. IntV (int t)) [0..<length (index df)])
     in case attack_trend df1 of
          None \<Rightarrow> (Some KeyError, df1, w)
        | Some trend \<Rightarrow>
           if trend = [] then (None, df1, w\<lparr>out := out w @ [Print ''No attack trend to plot.'']\<rparr>)
           else (None, df1, w\<lparr>out := out w @ [LineChart trend]\<rparr>))"

section \<open>The main block\<close>

definition on_exception :: "error \<Rightarrow> world \<Rightarrow> world" where
  "on_exception e w = w\<lparr>out := out w @
     [PrintError e,
      Print ''Please ensure you have pandas, matplotlib, and seaborn installed (e.g., pip install pandas matplotlib seaborn).'']\<rparr>"

definition run :: "nat \<Rightarrow> world \<Rightarrow> world" where
  "run num_rows w =
    (case generate_synthetic_data num_rows w of
       (Inl e, w1) \<Rightarrow> on_exception e w1
     | (Inr generated, w1) \<Rightarrow>
        (case load_and_prepare_data w1 of
           (Inl e, w2) \<Rightarrow> on_exception e w2
         | (Inr df_processed, w2) \<Rightarrow>
            (case plot_top_attacks df_processed w2 of
               (Some e, df3, w3) \<Rightarrow> on_exception e w3
             | (None, df3, w3) \<Rightarrow>
                (case plot_attack_trend df3 w3 of
                   (Some e, df4, w4) \<Rightarrow> on_exception e w4
                 | (None, df4, w4) \<Rightarrow>
                     w4\<lparr>out := out w4 @
                       [Print ''Analysis complete. Two plots have been generated.'']\<rparr>))))"

definition main :: "world \<Rightarrow> world" where
  "main w = run NUM_ROWS w"

section \<open>Sample inputs\<close>

text \<open>
  A record of 42 fields whose label field is the given text, and a world whose file holds
  five such records with labels that differ from the benign marker in case, in a missing
  dot, or by an extra character.
\<close>

definition sample_record :: "string \<Rightarrow> string list" where
  "sample_record lab = replicate 41 ''0'' @ [lab]"

definition zero_tape :: rng where
  "zero_tape = (\<lambda>_. 0)"

definition sample_world :: world where
  "sample_world =
    \<lparr>rng = zero_tape,
     disk = Some (map sample_record [''normal.'', ''Normal.'', ''normal'', ''smurf.'', ''xnormal.'']),
     out = []\<rparr>"

text \<open>
  Further worlds: one with no file yet; one whose file holds benign records only; one
  whose second record has a single field, a text in the place of the duration; and one with
  the sample file but another tape and earlier output on the console.
\<close>

definition fresh_world :: world where
  "fresh_world = \<lparr>rng = zero_tape, disk = None, out = []\<rparr>"

definition benign_world :: world where
  "benign_world =
    \<lparr>rng = zero_tape, disk = Some (map sample_record [''normal.'', ''normal.'']), out = []\<rparr>"






text \<open>
  For the top-attack view: the position at which a value is first met in a list; the
  order \<open>a\<close> before \<open>b\<close> of a frequency table sorted by descending count with ties in
  the order of first occurrence; and the labels the view counts, read off the table: the
  \<^verbatim>\<open>attack_type\<close> of the rows whose \<^verbatim>\<open>attack_category\<close> is \<open>Attack\<close>, in row order.
\<close>

definition first_pos :: "'a list \<Rightarrow> 'a \<Rightarrow> nat" where
  "first_pos xs x = length (takeWhile (\<lambda>y. y \<noteq> x) xs)"

definition ranks_before :: "cell list \<Rightarrow> cell \<times> nat \<Rightarrow> cell \<times> nat \<Rightarrow> bool" where
  "ranks_before xs a b =
     (snd b < snd a \<or> (snd a = snd b \<and> first_pos xs (fst a) < first_pos xs (fst b)))"

definition attack_labels :: "dataframe \<Rightarrow> cell list" where
  "attack_labels df =
     (case (getitem df ''attack_type'', getitem df ''attack_category'') of
        (Some labels, Some cats) \<Rightarrow>
          map fst (filter (\<lambda>p. snd p = StrV ''Attack'') (zip labels cats))
      | _ \<Rightarrow> [])"

text \<open>A world whose file has two labels of count 2 and one of count 1 among its attacks.\<close>

definition tie_world :: world where
  "tie_world =
    \<lparr>rng = zero_tape,
     disk = Some (map sample_record
       [''smurf.'', ''back.'', ''smurf.'', ''normal.'', ''back.'', ''neptune.'']),
     out = []\<rparr>"

section \<open>Basic facts about frames and the loader\<close>

lemma getitem_setitem_same: "getitem (setitem df n v) n = Some v"
  by (simp add: getitem_def setitem_def update_conv')

lemma getitem_setitem_other: "n \<noteq> m \<Longrightarrow> getitem (setitem df n v) m = getitem df m"
  by (simp add: getitem_def setitem_def update_conv')

lemma index_setitem: "index (setitem df n v) = index df"
  by (simp add: setitem_def)

lemma update_append:
  "k \<notin> fst ` set al \<Longrightarrow> AList.update k v al = al @ [(k, v)]"
  by (induction al) auto

lemma length_infer_column: "length (infer_column toks) = length toks"
  by (simp add: infer_column_def)

lemma length_parsed_column: "length (parsed_column fl j) = length (records fl)"
  by (simp add: parsed_column_def length_infer_column)

lemma length_KDD_COLUMNS: "length KDD_COLUMNS = 42"
  by (simp add: KDD_COLUMNS_def)

lemma distinct_KDD_COLUMNS: "distinct KDD_COLUMNS"
  by (simp add: KDD_COLUMNS_def)

lemma KDD_COLUMNS_last: "KDD_COLUMNS ! 41 = ''attack_type''"
  by (simp add: KDD_COLUMNS_def)

lemma attack_category_not_KDD: "''attack_category'' \<notin> set KDD_COLUMNS"
  by (simp add: KDD_COLUMNS_def)

lemma time_not_KDD: "''time'' \<notin> set KDD_COLUMNS"
  by (simp add: KDD_COLUMNS_def)

lemma read_csv_InrD:
  assumes "read_csv fl = Inr df"
  shows "records fl \<noteq> []"
    and "\<forall>r \<in> set (records fl). length r \<le> length (hd (records fl))"
    and "index df = [0..<length (records fl)]"
    and "columns df = map (\<lambda>j. (Pos j, parsed_column fl j)) [0..<length (hd (records fl))]"
  using assms
  by (auto simp: read_csv_def list_ex_iff not_less split: list.splits if_splits)

lemma read_csv_InlD:
  assumes "read_csv fl = Inl e"
  shows "(records fl = [] \<and> e = EmptyDataError) \<or>
         (records fl \<noteq> [] \<and> (\<exists>r \<in> set (records fl). length r > length (hd (records fl))) \<and>
          e = ParserError)"
  using assms
  by (auto simp: read_csv_def list_ex_iff not_less split: list.splits if_splits)

lemma set_columns_InrD:
  assumes "set_columns names df0 = Inr df"
  shows "length (columns df0) = length names"
    and "index df = index df0"
    and "columns df = zip (map Name names) (map snd (columns df0))"
  using assms
  by (auto simp: set_columns_def zip_map_map zip_map1 zip_map2 split: if_splits
           intro!: nth_equalityI)

lemma load_and_prepare_data_InrD:
  assumes "load_and_prepare_data w = (Inr df, w')"
  shows "\<exists>fl df0 df1 labels.
           disk w = Some fl \<and> read_csv fl = Inr df0 \<and> set_columns KDD_COLUMNS df0 = Inr df1 \<and>
           getitem df1 ''attack_type'' = Some labels \<and>
           df = setitem df1 ''attack_category'' (map category labels)"
  using assms
  by (auto simp: load_and_prepare_data_def Let_def split: option.splits sum.splits)

text \<open>
  The frame of a successful load, in terms of the file's records: the 42 parsed columns
  under the schema's names, then the derived column.
\<close>

lemma loaded_frame:
  assumes "load_and_prepare_data w = (Inr df, w')"
  obtains fl where "disk w = Some fl"
    and "records fl \<noteq> []"
    and "length (hd (records fl)) = 42"
    and "\<forall>r \<in> set (records fl). length r \<le> 42"
    and "index df = [0..<length (records fl)]"
    and "columns df = zip (map Name KDD_COLUMNS) (map (parsed_column fl) [0..<42])
           @ [(Name ''attack_category'', map category (parsed_column fl 41))]"
proof -
  from load_and_prepare_data_InrD [OF assms] obtain fl df0 df1 labels where
    f: "disk w = Some fl" and r: "read_csv fl = Inr df0"
    and s: "set_columns KDD_COLUMNS df0 = Inr df1"
    and l: "getitem df1 ''attack_type'' = Some labels"
    and d: "df = setitem df1 ''attack_category'' (map category labels)"
    by blast
  note R = read_csv_InrD [OF r]
  note S = set_columns_InrD [OF s]
  have w: "length (hd (records fl)) = 42"
    using S(1) R(4) by (simp add: length_KDD_COLUMNS)
  have c1: "columns df1 = zip (map Name KDD_COLUMNS) (map (parsed_column fl) [0..<42])"
    unfolding S(3) R(4) w by (simp add: comp_def)
  have "map_of (zip (map Name KDD_COLUMNS) (map (parsed_column fl) [0..<42]))
          (map Name KDD_COLUMNS ! 41) = Some (map (parsed_column fl) [0..<42] ! 41)"
    by (rule map_of_zip_nth)
      (simp_all add: distinct_map distinct_KDD_COLUMNS length_KDD_COLUMNS inj_on_def)
  then have "getitem df1 ''attack_type'' = Some (parsed_column fl 41)"
    by (simp add: getitem_def c1 length_KDD_COLUMNS KDD_COLUMNS_last)
  with l have lab: "labels = parsed_column fl 41" by simp
  have notin: "Name ''attack_category'' \<notin> fst ` set (columns df1)"
    using attack_category_not_KDD
    by (auto simp: c1 dest!: set_zip_leftD)
  have "columns df = columns df1 @ [(Name ''attack_category'', map category labels)]"
    using notin by (simp add: d setitem_def update_append)
  then have "columns df = zip (map Name KDD_COLUMNS) (map (parsed_column fl) [0..<42])
           @ [(Name ''attack_category'', map category (parsed_column fl 41))]"
    by (simp add: c1 lab)
  moreover have "index df = [0..<length (records fl)]"
    by (simp add: d index_setitem S(2) R(3))
  moreover have "\<forall>r \<in> set (records fl). length r \<le> 42"
    using R(2) w by simp
  ultimately show thesis
    using that f R(1) w by blast
qed

lemma loaded_columns:
  assumes "columns df = zip (map Name KDD_COLUMNS) (map (parsed_column fl) [0..<42])
           @ [(Name ''attack_category'', cats)]"
  shows "getitem df ''attack_type'' = Some (parsed_column fl 41)"
    and "getitem df ''attack_category'' = Some cats"
proof -
  have z: "map_of (zip (map Name KDD_COLUMNS) (map (parsed_column fl) [0..<42]))
          (map Name KDD_COLUMNS ! 41) = Some (map (parsed_column fl) [0..<42] ! 41)"
    by (rule map_of_zip_nth)
      (simp_all add: distinct_map distinct_KDD_COLUMNS length_KDD_COLUMNS inj_on_def)
  then show "getitem df ''attack_type'' = Some (parsed_column fl 41)"
    by (simp add: getitem_def assms length_KDD_COLUMNS KDD_COLUMNS_last map_add_def)
  have "map_of (zip (map Name KDD_COLUMNS) (map (parsed_column fl) [0..<42]))
          (Name ''attack_category'') = None"
    using attack_category_not_KDD
    by (auto simp: map_of_eq_None_iff dest!: set_zip_leftD)
  then show "getitem df ''attack_category'' = Some cats"
    by (simp add: getitem_def assms map_add_def)
qed

lemma category_Normal_iff: "category x = StrV ''Normal'' \<longleftrightarrow> x = StrV ''normal.''"
  by (simp add: category_def)

lemma category_Attack_iff: "category x = StrV ''Attack'' \<longleftrightarrow> x \<noteq> StrV ''normal.''"
  by (simp add: category_def)

section \<open>The derived category\<close>

text \<open>
  C1. In every table the loader returns, the \<^verbatim>\<open>attack_category\<close> of a row is
  \<open>Normal\<close> exactly when the row's \<^verbatim>\<open>attack_type\<close> is the string \<open>normal.\<close>, compared
  as a whole and with case; for every other value of the label it is \<open>Attack\<close>. Both
  columns have one value per row.
\<close>

theorem attack_category_exact:
  assumes "load_and_prepare_data w = (Inr df, w')"
  shows "\<exists>labels cats.
           getitem df ''attack_type'' = Some labels \<and>
           getitem df ''attack_category'' = Some cats \<and>
           length labels = length (index df) \<and> length cats = length (index df) \<and>
           (\<forall>i < length (index df).
              (cats ! i = StrV ''Normal'' \<longleftrightarrow> labels ! i = StrV ''normal.'') \<and>
              (labels ! i \<noteq> StrV ''normal.'' \<longrightarrow> cats ! i = StrV ''Attack''))"
proof -
  from loaded_frame [OF assms] obtain fl where
    i: "index df = [0..<length (records fl)]" and
    c: "columns df = zip (map Name KDD_COLUMNS) (map (parsed_column fl) [0..<42])
           @ [(Name ''attack_category'', map category (parsed_column fl 41))]"
    by blast
  let ?labels = "parsed_column fl 41"
  have "getitem df ''attack_type'' = Some ?labels"
    and "getitem df ''attack_category'' = Some (map category ?labels)"
    using loaded_columns [OF c] by simp_all
  moreover have "length ?labels = length (index df)"
    by (simp add: i length_parsed_column)
  moreover have "\<forall>i < length (index df).
      (map category ?labels ! i = StrV ''Normal'' \<longleftrightarrow> ?labels ! i = StrV ''normal.'') \<and>
      (?labels ! i \<noteq> StrV ''normal.'' \<longrightarrow> map category ?labels ! i = StrV ''Attack'')"
    by (simp add: i length_parsed_column category_Normal_iff category_Attack_iff)
  ultimately show ?thesis
    by (intro exI [of _ ?labels] exI [of _ "map category ?labels"]) simp
qed

text \<open>
  On the sample file the labels \<open>Normal.\<close>, \<open>normal\<close> and \<open>xnormal.\<close> are attacks; only
  \<open>normal.\<close> itself is benign.
\<close>

theorem attack_category_exact_witness:
  "(\<exists>df. fst (load_and_prepare_data sample_world) = Inr df \<and>
      (\<exists>labels cats.
         getitem df ''attack_type'' = Some labels \<and>
         getitem df ''attack_category'' = Some cats \<and>
         length labels = length (index df) \<and> length cats = length (index df) \<and>
         (\<forall>i < length (index df).
            (cats ! i = StrV ''Normal'' \<longleftrightarrow> labels ! i = StrV ''normal.'') \<and>
            (labels ! i \<noteq> StrV ''normal.'' \<longrightarrow> cats ! i = StrV ''Attack'')))) \<and>
   map_sum id (\<lambda>df. (getitem df ''attack_type'', getitem df ''attack_category''))
     (fst (load_and_prepare_data sample_world)) =
   Inr (Some [StrV ''normal.'', StrV ''Normal.'', StrV ''normal'', StrV ''smurf.'',
              StrV ''xnormal.''],
        Some [StrV ''Normal'', StrV ''Attack'', StrV ''Attack'', StrV ''Attack'',
              StrV ''Attack''])"
proof -
  have "case_sum (\<lambda>_. False) (\<lambda>_. True) (fst (load_and_prepare_data sample_world))"
    by code_simp
  then obtain df where h: "fst (load_and_prepare_data sample_world) = Inr df"
    by (cases "fst (load_and_prepare_data sample_world)") auto
  then have "load_and_prepare_data sample_world = (Inr df, snd (load_and_prepare_data sample_world))"
    by (metis prod.collapse)
  from attack_category_exact [OF this] h
  have first: "\<exists>df. fst (load_and_prepare_data sample_world) = Inr df \<and>
      (\<exists>labels cats.
         getitem df ''attack_type'' = Some labels \<and>
         getitem df ''attack_category'' = Some cats \<and>
         length labels = length (index df) \<and> length cats = length (index df) \<and>
         (\<forall>i < length (index df).
            (cats ! i = StrV ''Normal'' \<longleftrightarrow> labels ! i = StrV ''normal.'') \<and>
            (labels ! i \<noteq> StrV ''normal.'' \<longrightarrow> cats ! i = StrV ''Attack'')))"
    by blast
  have second: "map_sum id (\<lambda>df. (getitem df ''attack_type'', getitem df ''attack_category''))
     (fst (load_and_prepare_data sample_world)) =
   Inr (Some [StrV ''normal.'', StrV ''Normal.'', StrV ''normal'', StrV ''smurf.'',
              StrV ''xnormal.''],
        Some [StrV ''Normal'', StrV ''Attack'', StrV ''Attack'', StrV ''Attack'',
              StrV ''Attack''])"
    by code_simp
  from first second show ?thesis by (rule conjI)
qed

lemma plot_top_attacks_frame: "fst (snd (plot_top_attacks df w)) = df"
  by (simp add: plot_top_attacks_def split: option.splits)

lemma plot_attack_trend_frame:
  "fst (snd (plot_attack_trend df w)) =
     setitem df ''time'' (map (\<lambda>t. IntV (int t)) [0..<length (index df)])"
  by (simp add: plot_attack_trend_def Let_def split: option.splits)

lemma loaded_names:
  assumes "load_and_prepare_data w = (Inr df, w')"
  shows "map fst (columns df) = map Name (KDD_COLUMNS @ [''attack_category''])"
proof -
  from loaded_frame [OF assms] obtain fl where
    c: "columns df = zip (map Name KDD_COLUMNS) (map (parsed_column fl) [0..<42])
           @ [(Name ''attack_category'', map category (parsed_column fl 41))]"
    by blast
  show ?thesis by (simp add: c length_KDD_COLUMNS)
qed

lemma loaded_rectangular:
  assumes "load_and_prepare_data w = (Inr df, w')"
  shows "\<forall>c \<in> set (columns df). length (snd c) = length (index df)"
proof -
  from loaded_frame [OF assms] obtain fl where
    i: "index df = [0..<length (records fl)]" and
    c: "columns df = zip (map Name KDD_COLUMNS) (map (parsed_column fl) [0..<42])
           @ [(Name ''attack_category'', map category (parsed_column fl 41))]"
    by blast
  show ?thesis
    by (auto simp: c i length_parsed_column dest!: set_zip_rightD)
qed

section \<open>What the views do to the table\<close>

text \<open>
  C8. For every table the loader returns, the trend view leaves the index alone and
  appends one column, \<^verbatim>\<open>time\<close>, whose value in each row is the row's zero-based
  position (which is also the row's index label); each of the 42 schema columns and
  \<^verbatim>\<open>attack_category\<close> is still there with the same values. The top-attack view hands
  the table back as it got it.
\<close>

theorem trend_view_appends_time:
  assumes "load_and_prepare_data w0 = (Inr df, w1)"
  shows "index (fst (snd (plot_attack_trend df w))) = index df \<and>
         columns (fst (snd (plot_attack_trend df w))) =
           columns df @ [(Name ''time'', map (\<lambda>t. IntV (int t)) [0..<length (index df)])] \<and>
         (\<forall>i < length (index df). index df ! i = i) \<and>
         (\<forall>name \<in> set KDD_COLUMNS \<union> {''attack_category''}.
            getitem (fst (snd (plot_attack_trend df w))) name = getitem df name \<and>
            getitem df name \<noteq> None) \<and>
         fst (snd (plot_top_attacks df w)) = df"
proof -
  let ?t = "map (\<lambda>t. IntV (int t)) [0..<length (index df)]"
  have names: "map fst (columns df) = map Name (KDD_COLUMNS @ [''attack_category''])"
    by (rule loaded_names [OF assms])
  have "Name ''time'' \<notin> set (map fst (columns df))"
    unfolding names using time_not_KDD by auto
  then have "Name ''time'' \<notin> fst ` set (columns df)" by simp
  then have cols: "columns (setitem df ''time'' ?t) = columns df @ [(Name ''time'', ?t)]"
    by (simp add: setitem_def update_append)
  from loaded_frame [OF assms] obtain fl where i: "index df = [0..<length (records fl)]"
    by blast
  have pos: "\<forall>i < length (index df). index df ! i = i"
    by (simp add: i)
  have keep: "\<forall>name \<in> set KDD_COLUMNS \<union> {''attack_category''}.
      getitem (setitem df ''time'' ?t) name = getitem df name \<and> getitem df name \<noteq> None"
  proof
    fix name assume n: "name \<in> set KDD_COLUMNS \<union> {''attack_category''}"
    then have "name \<noteq> ''time''" using time_not_KDD by auto
    then have "getitem (setitem df ''time'' ?t) name = getitem df name"
      by (simp add: getitem_setitem_other)
    moreover have "Name name \<in> set (map fst (columns df))"
      unfolding names using n by auto
    then have "getitem df name \<noteq> None"
      unfolding getitem_def by (simp add: map_of_eq_None_iff)
    ultimately show "getitem (setitem df ''time'' ?t) name = getitem df name \<and>
        getitem df name \<noteq> None" by simp
  qed
  show ?thesis
    unfolding plot_attack_trend_frame plot_top_attacks_frame
    using cols pos keep by (simp add: index_setitem)
qed

theorem trend_view_appends_time_witness:
  "(\<exists>df. fst (load_and_prepare_data sample_world) = Inr df \<and>
      index (fst (snd (plot_attack_trend df sample_world))) = index df \<and>
      columns (fst (snd (plot_attack_trend df sample_world))) =
        columns df @ [(Name ''time'', map (\<lambda>t. IntV (int t)) [0..<length (index df)])] \<and>
      fst (snd (plot_top_attacks df sample_world)) = df) \<and>
   map_sum id (\<lambda>df. getitem (fst (snd (plot_attack_trend df sample_world))) ''time'')
     (fst (load_and_prepare_data sample_world)) =
   Inr (Some [IntV 0, IntV 1, IntV 2, IntV 3, IntV 4])"
proof -
  have "case_sum (\<lambda>_. False) (\<lambda>_. True) (fst (load_and_prepare_data sample_world))"
    by code_simp
  then obtain df where h: "fst (load_and_prepare_data sample_world) = Inr df"
    by (cases "fst (load_and_prepare_data sample_world)") auto
  then have "load_and_prepare_data sample_world =
      (Inr df, snd (load_and_prepare_data sample_world))"
    by (metis prod.collapse)
  from trend_view_appends_time [OF this, of sample_world] h
  have first: "\<exists>df. fst (load_and_prepare_data sample_world) = Inr df \<and>
      index (fst (snd (plot_attack_trend df sample_world))) = index df \<and>
      columns (fst (snd (plot_attack_trend df sample_world))) =
        columns df @ [(Name ''time'', map (\<lambda>t. IntV (int t)) [0..<length (index df)])] \<and>
      fst (snd (plot_top_attacks df sample_world)) = df"
    by blast
  have second: "map_sum id (\<lambda>df. getitem (fst (snd (plot_attack_trend df sample_world))) ''time'')
     (fst (load_and_prepare_data sample_world)) =
   Inr (Some [IntV 0, IntV 1, IntV 2, IntV 3, IntV 4])"
    by code_simp
  from first second show ?thesis by (rule conjI)
qed

section \<open>Determinism in the file's contents\<close>









section \<open>When the loader fails\<close>









section \<open>A run with no rows, and views with nothing to show\<close>

lemma generate_zero:
  "generate_synthetic_data 0 w =
     (Inr \<lparr>index = [], columns = map (\<lambda>j. (Name (KDD_COLUMNS ! j), [])) [0..<42]\<rparr>,
      w\<lparr>disk := Some [], out := out w @ [PrintGenerating 0, PrintSaved 0 42]\<rparr>)"
  by (simp add: generate_synthetic_data_def DataFrame_def to_csv_def rows_of_def
      length_KDD_COLUMNS)

lemma load_empty_file:
  "disk w = Some [] \<Longrightarrow> load_and_prepare_data w = (Inl EmptyDataError, w)"
  by (simp add: load_and_prepare_data_def read_csv_def records_def)

lemma run_zero:
  "run 0 w = w\<lparr>disk := Some [],
               out := out w @ [PrintGenerating 0, PrintSaved 0 42, PrintError EmptyDataError,
      Print ''Please ensure you have pandas, matplotlib, and seaborn installed (e.g., pip install pandas matplotlib seaborn).'']\<rparr>"
  by (simp add: run_def generate_zero load_empty_file on_exception_def)

lemma getitem_select_rows:
  "getitem (select_rows keep df) name =
     map_option (\<lambda>col. map fst (filter snd (zip col keep))) (getitem df name)"
proof -
  have "map_of (map (\<lambda>c. (fst c, map fst (filter snd (zip (snd c) keep)))) al) k =
        map_option (\<lambda>col. map fst (filter snd (zip col keep))) (map_of al k)"
    for al :: "(label \<times> cell list) list" and k :: label
    by (induction al) auto
  then show ?thesis
    by (simp add: getitem_def select_rows_def)
qed

lemma index_select_rows:
  "index (select_rows keep df) = map fst (filter snd (zip (index df) keep))"
  by (simp add: select_rows_def)

lemma filter_zip_none:
  "A \<notin> set cats \<Longrightarrow> filter snd (zip xs (map (\<lambda>c. c = A) cats)) = []"
  by (auto simp: filter_empty_conv dest!: set_zip_rightD)

lemma value_counts_Nil: "value_counts [] = []"
  by (simp add: value_counts_def)

lemma groupby_size_Nil: "groupby_size [] grouper = []"
  by (simp add: groupby_size_def)

lemma top_attacks_no_attack:
  assumes "getitem df ''attack_category'' = Some cats" "StrV ''Attack'' \<notin> set cats"
    and "getitem df ''attack_type'' \<noteq> None"
  shows "top_attacks df = Some []"
  using assms
  by (auto simp: top_attacks_def getitem_select_rows filter_zip_none value_counts_Nil)

lemma attack_trend_no_attack:
  assumes "getitem df ''attack_category'' = Some cats" "StrV ''Attack'' \<notin> set cats"
  shows "attack_trend df = Some []"
  using assms
  by (simp add: attack_trend_def Let_def index_select_rows filter_zip_none groupby_size_Nil)

text \<open>
  C4, as the code has it. With a row count of 0 the generator writes a file with no
  record. The loader then fails with EmptyDataError (there are no columns to parse); the
  main block catches it and prints the error and its hint, and neither view runs. A view
  prints its notice and returns without an error when it is given a loaded table that has
  no row of category \<open>Attack\<close>.
\<close>

theorem zero_rows_and_empty_views:
  "disk (run 0 w) = Some [] \<and>
   fst (load_and_prepare_data (snd (generate_synthetic_data 0 w))) = Inl EmptyDataError \<and>
   out (run 0 w) = out w @ [PrintGenerating 0, PrintSaved 0 42, PrintError EmptyDataError,
      Print ''Please ensure you have pandas, matplotlib, and seaborn installed (e.g., pip install pandas matplotlib seaborn).''] \<and>
   (\<forall>w0 df w1 cats v.
      load_and_prepare_data w0 = (Inr df, w1) \<and>
      getitem df ''attack_category'' = Some cats \<and> StrV ''Attack'' \<notin> set cats \<longrightarrow>
      plot_top_attacks df v =
        (None, df, v\<lparr>out := out v @ [Print ''No attacks found to plot top 10.'']\<rparr>) \<and>
      plot_attack_trend df v =
        (None, setitem df ''time'' (map (\<lambda>t. IntV (int t)) [0..<length (index df)]),
         v\<lparr>out := out v @ [Print ''No attack trend to plot.'']\<rparr>))"
proof -
  have views: "plot_top_attacks df v =
        (None, df, v\<lparr>out := out v @ [Print ''No attacks found to plot top 10.'']\<rparr>) \<and>
      plot_attack_trend df v =
        (None, setitem df ''time'' (map (\<lambda>t. IntV (int t)) [0..<length (index df)]),
         v\<lparr>out := out v @ [Print ''No attack trend to plot.'']\<rparr>)"
    if l: "load_and_prepare_data w0 = (Inr df, w1)"
      and c: "getitem df ''attack_category'' = Some cats" and n: "StrV ''Attack'' \<notin> set cats"
    for w0 df w1 cats v
  proof -
    from loaded_frame [OF l] obtain fl where
      cols: "columns df = zip (map Name KDD_COLUMNS) (map (parsed_column fl) [0..<42])
           @ [(Name ''attack_category'', map category (parsed_column fl 41))]"
      by blast
    have "getitem df ''attack_type'' \<noteq> None"
      using loaded_columns(1) [OF cols] by simp
    then have t: "top_attacks df = Some []"
      using c n by (rule top_attacks_no_attack [rotated 2])
    let ?df1 = "setitem df ''time'' (map (\<lambda>t. IntV (int t)) [0..<length (index df)])"
    have "getitem ?df1 ''attack_category'' = Some cats"
      using c by (simp add: getitem_setitem_other)
    then have "attack_trend ?df1 = Some []"
      using n by (rule attack_trend_no_attack)
    then show ?thesis
      using t by (simp add: plot_top_attacks_def plot_attack_trend_def Let_def)
  qed
  show ?thesis
    using views by (simp add: run_zero generate_zero load_empty_file) blast
qed

text \<open>
  C4 as stated fails: after a run with 0 rows from a world with no file, the file is
  empty, the loader has raised EmptyDataError, and the console holds the error and the
  hint but neither of the two notices.
\<close>

theorem zero_rows_stop_at_the_loader:
  "disk (run 0 fresh_world) = Some [] \<and>
   fst (load_and_prepare_data (snd (generate_synthetic_data 0 fresh_world))) = Inl EmptyDataError \<and>
   out (run 0 fresh_world) =
     [PrintGenerating 0, PrintSaved 0 42, PrintError EmptyDataError,
      Print ''Please ensure you have pandas, matplotlib, and seaborn installed (e.g., pip install pandas matplotlib seaborn).''] \<and>
   Print ''No attacks found to plot top 10.'' \<notin> set (out (run 0 fresh_world)) \<and>
   Print ''No attack trend to plot.'' \<notin> set (out (run 0 fresh_world))"
  by code_simp

theorem zero_rows_and_empty_views_witness:
  "out (run 0 fresh_world) =
     [PrintGenerating 0, PrintSaved 0 42, PrintError EmptyDataError,
      Print ''Please ensure you have pandas, matplotlib, and seaborn installed (e.g., pip install pandas matplotlib seaborn).''] \<and>
   (\<exists>df. fst (load_and_prepare_data benign_world) = Inr df \<and>
      getitem df ''attack_category'' = Some [StrV ''Normal'', StrV ''Normal''] \<and>
      plot_top_attacks df fresh_world =
        (None, df, fresh_world\<lparr>out := [Print ''No attacks found to plot top 10.'']\<rparr>) \<and>
      plot_attack_trend df fresh_world =
        (None, setitem df ''time'' (map (\<lambda>t. IntV (int t)) [0..<length (index df)]),
         fresh_world\<lparr>out := [Print ''No attack trend to plot.'']\<rparr>))"
proof -
  have "case_sum (\<lambda>_. False) (\<lambda>_. True) (fst (load_and_prepare_data benign_world))"
    by code_simp
  then obtain df where h: "fst (load_and_prepare_data benign_world) = Inr df"
    by (cases "fst (load_and_prepare_data benign_world)") auto
  then have l: "load_and_prepare_data benign_world =
      (Inr df, snd (load_and_prepare_data benign_world))"
    by (metis prod.collapse)
  have "map_sum id (\<lambda>df. getitem df ''attack_category'')
      (fst (load_and_prepare_data benign_world)) = Inr (Some [StrV ''Normal'', StrV ''Normal''])"
    by code_simp
  then have c: "getitem df ''attack_category'' = Some [StrV ''Normal'', StrV ''Normal'']"
    by (simp add: h)
  have n: "StrV ''Attack'' \<notin> set [StrV ''Normal'', StrV ''Normal'']"
    by simp
  have o: "out fresh_world = []"
    by (simp add: fresh_world_def)
  note z = zero_rows_and_empty_views [of fresh_world]
  from z have r: "out (run 0 fresh_world) = out fresh_world @
     [PrintGenerating 0, PrintSaved 0 42, PrintError EmptyDataError,
      Print ''Please ensure you have pandas, matplotlib, and seaborn installed (e.g., pip install pandas matplotlib seaborn).'']"
    by blast
  from z l c n have v: "plot_top_attacks df fresh_world =
        (None, df, fresh_world\<lparr>out := out fresh_world @ [Print ''No attacks found to plot top 10.'']\<rparr>) \<and>
      plot_attack_trend df fresh_world =
        (None, setitem df ''time'' (map (\<lambda>t. IntV (int t)) [0..<length (index df)]),
         fresh_world\<lparr>out := out fresh_world @ [Print ''No attack trend to plot.'']\<rparr>)"
    by blast
  from r v h c show ?thesis
    unfolding o append_Nil by blast
qed

section \<open>The frequency table of the top-attack view\<close>

lemma set_first_seen: "set (first_seen xs) = set xs"
  by (induction xs) auto

lemma distinct_first_seen: "distinct (first_seen xs)"
  by (induction xs) (auto simp: set_first_seen)

lemma first_pos_Cons: "first_pos (x # xs) y = (if x = y then 0 else Suc (first_pos xs y))"
  by (simp add: first_pos_def)

lemma sorted_wrt_first_seen:
  "sorted_wrt (\<lambda>a b. first_pos xs a < first_pos xs b) (first_seen xs)"
proof (induction xs)
  case Nil
  then show ?case by simp
next
  case (Cons x xs)
  have "sorted_wrt (\<lambda>a b. first_pos (x # xs) a < first_pos (x # xs) b)
          (filter (\<lambda>y. y \<noteq> x) (first_seen xs))"
  proof (rule sorted_wrt_mono_rel [OF _ sorted_wrt_filter [OF Cons.IH]])
    fix a b
    assume "a \<in> set (filter (\<lambda>y. y \<noteq> x) (first_seen xs))"
      "b \<in> set (filter (\<lambda>y. y \<noteq> x) (first_seen xs))"
      "first_pos xs a < first_pos xs b"
    then show "first_pos (x # xs) a < first_pos (x # xs) b"
      by (auto simp: first_pos_Cons)
  qed
  then show ?case
    by (auto simp: first_pos_Cons)
qed

text \<open>
  Insertion sort by a key keeps elements of equal key in their order: sorting a list that
  is in ascending order of \<open>pos\<close> gives a list in ascending order of the key and, within a
  key, of \<open>pos\<close>.
\<close>

lemma sorted_wrt_insort_key_stable:
  fixes f :: "'a \<Rightarrow> 'k::linorder" and pos :: "'a \<Rightarrow> nat"
  assumes "sorted_wrt (\<lambda>a b. f a < f b \<or> (f a = f b \<and> pos a < pos b)) ys"
    and "\<forall>y \<in> set ys. pos x < pos y"
  shows "sorted_wrt (\<lambda>a b. f a < f b \<or> (f a = f b \<and> pos a < pos b)) (insort_key f x ys)"
  using assms
proof (induction ys)
  case Nil
  then show ?case by simp
next
  case (Cons y ys)
  show ?case
  proof (cases "f x \<le> f y")
    case True
    have "f x < f z \<or> (f x = f z \<and> pos x < pos z)" if "z \<in> set (y # ys)" for z
    proof -
      have "f y \<le> f z" using that Cons.prems(1) by auto
      with True have "f x \<le> f z" by simp
      moreover have "pos x < pos z" using that Cons.prems(2) by auto
      ultimately show ?thesis by auto
    qed
    with True Cons.prems(1) show ?thesis by simp
  next
    case False
    have "sorted_wrt (\<lambda>a b. f a < f b \<or> (f a = f b \<and> pos a < pos b)) (insort_key f x ys)"
      using Cons by simp
    with False Cons.prems(1) show ?thesis
      by (auto simp: set_insort_key)
  qed
qed

lemma sorted_wrt_sort_key_stable:
  fixes f :: "'a \<Rightarrow> 'k::linorder" and pos :: "'a \<Rightarrow> nat"
  assumes "sorted_wrt (\<lambda>a b. pos a < pos b) xs"
  shows "sorted_wrt (\<lambda>a b. f a < f b \<or> (f a = f b \<and> pos a < pos b)) (sort_key f xs)"
  using assms
proof (induction xs)
  case Nil
  then show ?case by simp
next
  case (Cons x xs)
  have "sorted_wrt (\<lambda>a b. f a < f b \<or> (f a = f b \<and> pos a < pos b)) (sort_key f xs)"
    using Cons by simp
  moreover have "\<forall>y \<in> set (sort_key f xs). pos x < pos y"
    using Cons.prems by simp
  ultimately show ?case
    by (simp add: sorted_wrt_insort_key_stable)
qed

lemma sum_list_sort_key:
  fixes g :: "'a \<Rightarrow> nat"
  shows "sum_list (map g (sort_key f xs)) = sum_list (map g xs)"
proof -
  have "sum_list (map g (insort_key f x ys)) = g x + sum_list (map g ys)" for x ys
    by (induction ys) (auto simp: algebra_simps)
  then show ?thesis
    by (induction xs) simp_all
qed

text \<open>Facts about \<open>value_counts\<close>.\<close>

lemma value_counts_unfold:
  "value_counts xs =
     sort_key (\<lambda>p. - int (snd p))
       (map (\<lambda>v. (v, count_list (filter (\<lambda>c. c \<noteq> NaN) xs) v))
         (first_seen (filter (\<lambda>c. c \<noteq> NaN) xs)))"
  by (simp add: value_counts_def Let_def)

lemma value_counts_sorted:
  "sorted_wrt (ranks_before (filter (\<lambda>c. c \<noteq> NaN) xs)) (value_counts xs)"
proof -
  let ?ys = "filter (\<lambda>c. c \<noteq> NaN) xs"
  let ?t = "map (\<lambda>v. (v, count_list ?ys v)) (first_seen ?ys)"
  have "sorted_wrt (\<lambda>a b. first_pos ?ys (fst a) < first_pos ?ys (fst b)) ?t"
    using sorted_wrt_first_seen [of ?ys] by (simp add: sorted_wrt_map)
  then have "sorted_wrt (\<lambda>a b. - int (snd a) < - int (snd b) \<or>
      (- int (snd a) = - int (snd b) \<and> first_pos ?ys (fst a) < first_pos ?ys (fst b)))
      (sort_key (\<lambda>p. - int (snd p)) ?t)"
    by (rule sorted_wrt_sort_key_stable)
  then show ?thesis
    by (simp add: value_counts_unfold ranks_before_def [abs_def])
qed

lemma set_value_counts:
  "set (value_counts xs) =
     (\<lambda>v. (v, count_list (filter (\<lambda>c. c \<noteq> NaN) xs) v)) ` (set xs - {NaN})"
  by (auto simp: value_counts_unfold set_first_seen)

lemma map_fst_value_counts_set: "set (map fst (value_counts xs)) = set xs - {NaN}"
  by (auto simp: set_value_counts image_iff)

lemma distinct_value_counts: "distinct (map fst (value_counts xs))"
proof -
  let ?ys = "filter (\<lambda>c. c \<noteq> NaN) xs"
  let ?t = "map (\<lambda>v. (v, count_list ?ys v)) (first_seen ?ys)"
  have "distinct (map fst ?t)"
    by (simp add: comp_def distinct_first_seen)
  moreover have "distinct (map fst (sort_key (\<lambda>p. - int (snd p)) ?t)) = distinct (map fst ?t)"
    by (simp only: distinct_map distinct_sort set_sort)
  ultimately show ?thesis
    unfolding value_counts_unfold by simp
qed

lemma length_value_counts: "length (value_counts xs) = card (set xs - {NaN})"
proof -
  have "card (set (map fst (value_counts xs))) = length (map fst (value_counts xs))"
    by (rule distinct_card [OF distinct_value_counts])
  then show ?thesis
    by (simp only: map_fst_value_counts_set length_map)
qed

lemma sum_value_counts:
  "sum_list (map snd (value_counts xs)) = length (filter (\<lambda>c. c \<noteq> NaN) xs)"
proof -
  let ?ys = "filter (\<lambda>c. c \<noteq> NaN) xs"
  have "sum_list (map snd (value_counts xs)) = sum_list (map (count_list ?ys) (first_seen ?ys))"
    by (simp add: value_counts_unfold sum_list_sort_key comp_def)
  also have "\<dots> = sum (count_list ?ys) (set ?ys)"
    using sum_list_distinct_conv_sum_set [OF distinct_first_seen, of "count_list ?ys" ?ys]
    by (simp add: set_first_seen)
  also have "\<dots> = length ?ys"
    by (rule sum_count_set) simp_all
  finally show ?thesis .
qed

lemma filter_zip_map:
  "map fst (filter snd (zip xs (map P ys))) = map fst (filter (\<lambda>p. P (snd p)) (zip xs ys))"
  by (simp add: zip_map2 filter_map comp_def case_prod_beta)

lemma count_list_filter_other:
  "v \<noteq> n \<Longrightarrow> count_list (filter (\<lambda>c. c \<noteq> n) xs) v = count_list xs v"
  by (induction xs) auto

lemma loaded_top_attacks:
  assumes "load_and_prepare_data w = (Inr df, w')"
  shows "top_attacks df = Some (take 10 (value_counts (attack_labels df)))"
proof -
  from loaded_frame [OF assms] obtain fl where
    cols: "columns df = zip (map Name KDD_COLUMNS) (map (parsed_column fl) [0..<42])
           @ [(Name ''attack_category'', map category (parsed_column fl 41))]"
    by blast
  note g = loaded_columns [OF cols]
  let ?L = "parsed_column fl 41"
  have "map fst (filter snd (zip ?L (map (\<lambda>c. c = StrV ''Attack'') (map category ?L)))) =
        map fst (filter (\<lambda>p. snd p = StrV ''Attack'') (zip ?L (map category ?L)))"
    by (rule filter_zip_map)
  then show ?thesis
    by (simp only: top_attacks_def attack_labels_def g getitem_select_rows option.case
        option.map prod.case)
qed

text \<open>
  C5. For every table the loader returns, the top-attack view shows the first ten entries
  of a frequency table \<open>full\<close> of the labels of the attack rows: each entry is a label that
  occurs there (missing labels are not counted) with the number of its occurrences, no
  label twice, every such label in \<open>full\<close>; \<open>full\<close> is in descending order of count, and
  entries of equal count stand in the order in which their labels are first met. So the
  view has at most 10 entries in descending order of count. It raises no error; when
  there are no attack rows the result is empty and the view prints its notice instead of
  drawing.
\<close>

theorem top_attacks_view:
  assumes "load_and_prepare_data w = (Inr df, w')"
  shows "\<exists>full.
     top_attacks df = Some (take 10 full) \<and>
     length (take 10 full) \<le> 10 \<and>
     sorted_wrt (ranks_before (filter (\<lambda>c. c \<noteq> NaN) (attack_labels df))) full \<and>
     sorted_wrt (\<lambda>a b. snd b \<le> snd a) (take 10 full) \<and>
     distinct (map fst full) \<and>
     (\<forall>p \<in> set full. fst p \<in> set (attack_labels df) \<and>
        snd p = count_list (attack_labels df) (fst p) \<and> 0 < snd p) \<and>
     (\<forall>x \<in> set (attack_labels df). x \<noteq> NaN \<longrightarrow> x \<in> fst ` set full) \<and>
     plot_top_attacks df v =
       (None, df, v\<lparr>out := out v @
          [if take 10 full = [] then Print ''No attacks found to plot top 10.''
           else BarChart (take 10 full)]\<rparr>) \<and>
     (attack_labels df = [] \<longrightarrow> take 10 full = [])"
proof -
  let ?al = "attack_labels df"
  let ?full = "value_counts ?al"
  have t: "top_attacks df = Some (take 10 ?full)"
    by (rule loaded_top_attacks [OF assms])
  have s1: "sorted_wrt (ranks_before (filter (\<lambda>c. c \<noteq> NaN) ?al)) ?full"
    by (rule value_counts_sorted)
  have "sorted_wrt (\<lambda>a b. snd b \<le> snd a) ?full"
    by (rule sorted_wrt_mono_rel [OF _ s1]) (auto simp: ranks_before_def)
  then have s2: "sorted_wrt (\<lambda>a b. snd b \<le> snd a) (take 10 ?full)"
    by (rule sorted_wrt_take)
  have d: "distinct (map fst ?full)"
    by (rule distinct_value_counts)
  have e: "\<forall>p \<in> set ?full. fst p \<in> set ?al \<and> snd p = count_list ?al (fst p) \<and> 0 < snd p"
    by (auto simp: set_value_counts count_list_filter_other count_list_0_iff)
  have c: "\<forall>x \<in> set ?al. x \<noteq> NaN \<longrightarrow> x \<in> fst ` set ?full"
    using map_fst_value_counts_set [of ?al] by auto
  have p: "plot_top_attacks df v =
       (None, df, v\<lparr>out := out v @
          [if take 10 ?full = [] then Print ''No attacks found to plot top 10.''
           else BarChart (take 10 ?full)]\<rparr>)"
    by (simp add: plot_top_attacks_def t)
  have n: "?al = [] \<longrightarrow> take 10 ?full = []"
    by (simp add: value_counts_Nil)
  have l: "length (take 10 ?full) \<le> 10"
    by simp
  show ?thesis
    apply (rule exI [of _ ?full])
    using t l s1 s2 d e c p n apply -
    apply (intro conjI)
            apply assumption+
    done
qed

theorem top_attacks_view_witness:
  "(\<exists>df. fst (load_and_prepare_data tie_world) = Inr df \<and>
      (\<exists>full.
         top_attacks df = Some (take 10 full) \<and>
         sorted_wrt (ranks_before (filter (\<lambda>c. c \<noteq> NaN) (attack_labels df))) full \<and>
         sorted_wrt (\<lambda>a b. snd b \<le> snd a) (take 10 full) \<and>
         plot_top_attacks df fresh_world =
           (None, df, fresh_world\<lparr>out := out fresh_world @
              [if take 10 full = [] then Print ''No attacks found to plot top 10.''
               else BarChart (take 10 full)]\<rparr>))) \<and>
   map_sum id (\<lambda>df. (top_attacks df, attack_labels df))
     (fst (load_and_prepare_data tie_world)) =
   Inr (Some [(StrV ''smurf.'', 2), (StrV ''back.'', 2), (StrV ''neptune.'', 1)],
        [StrV ''smurf.'', StrV ''back.'', StrV ''smurf.'', StrV ''back.'', StrV ''neptune.''])"
proof -
  have "case_sum (\<lambda>_. False) (\<lambda>_. True) (fst (load_and_prepare_data tie_world))"
    by code_simp
  then obtain df where h: "fst (load_and_prepare_data tie_world) = Inr df"
    by (cases "fst (load_and_prepare_data tie_world)") auto
  then have "load_and_prepare_data tie_world = (Inr df, snd (load_and_prepare_data tie_world))"
    by (metis prod.collapse)
  from top_attacks_view [OF this, of fresh_world] h
  have first: "\<exists>df. fst (load_and_prepare_data tie_world) = Inr df \<and>
      (\<exists>full.
         top_attacks df = Some (take 10 full) \<and>
         sorted_wrt (ranks_before (filter (\<lambda>c. c \<noteq> NaN) (attack_labels df))) full \<and>
         sorted_wrt (\<lambda>a b. snd b \<le> snd a) (take 10 full) \<and>
         plot_top_attacks df fresh_world =
           (None, df, fresh_world\<lparr>out := out fresh_world @
              [if take 10 full = [] then Print ''No attacks found to plot top 10.''
               else BarChart (take 10 full)]\<rparr>))"
    by blast
  have second: "map_sum id (\<lambda>df. (top_attacks df, attack_labels df))
     (fst (load_and_prepare_data tie_world)) =
   Inr (Some [(StrV ''smurf.'', 2), (StrV ''back.'', 2), (StrV ''neptune.'', 1)],
        [StrV ''smurf.'', StrV ''back.'', StrV ''smurf.'', StrV ''back.'', StrV ''neptune.''])"
    by code_simp
  from first second show ?thesis by (rule conjI)
qed

end
